theory Spec2Isabelle
  imports Main "HOL-Library.Product_Lexorder" "HOL-Library.Sublist"
begin

section \<open>Times of day\<close>

text \<open>
  A \<^verbatim>\<open>datetime.time\<close> without time zone is the tuple (hour, minute, second,
  microsecond). Python compares two such times by comparing these tuples
  lexicographically, which is the order a product has here. Every such time is truthy
  (Python 3.5 and later), so \<^verbatim>\<open>if min_time\<close> tests only for \<^verbatim>\<open>None\<close>.
\<close>

type_synonym time = "nat \<times> nat \<times> nat \<times> nat"

definition mk_time :: "nat \<Rightarrow> nat \<Rightarrow> time" where
  "mk_time h m = (h, m, 0, 0)"

section \<open>Slot selection\<close>

text \<open>The loop of the branch with both bounds: the first slot within the bounds.\<close>

fun first_between :: "time \<Rightarrow> time \<Rightarrow> time list \<Rightarrow> time option" where
  "first_between min_time max_time [] = None"
| "first_between min_time max_time (time_slot # rest) =
     (if time_slot \<ge> min_time \<and> time_slot \<le> max_time then Some time_slot
      else first_between min_time max_time rest)"

text \<open>The loop of the branch with only the lower bound, \<open>latest_time\<close> being its variable.\<close>

fun latest_from :: "time \<Rightarrow> time option \<Rightarrow> time list \<Rightarrow> time option" where
  "latest_from min_time latest_time [] = latest_time"
| "latest_from min_time latest_time (time_slot # rest) =
     latest_from min_time
       (if time_slot \<ge> min_time then
          (case latest_time of
             None \<Rightarrow> Some time_slot
           | Some l \<Rightarrow> if time_slot > l then Some time_slot else latest_time)
        else latest_time)
       rest"

text \<open>The loop of the branch with only the upper bound, \<open>earliest_time\<close> being its variable.\<close>

fun earliest_upto :: "time \<Rightarrow> time option \<Rightarrow> time list \<Rightarrow> time option" where
  "earliest_upto max_time earliest_time [] = earliest_time"
| "earliest_upto max_time earliest_time (time_slot # rest) =
     earliest_upto max_time
       (if time_slot \<le> max_time then
          (case earliest_time of
             None \<Rightarrow> Some time_slot
           | Some e \<Rightarrow> if time_slot < e then Some time_slot else earliest_time)
        else earliest_time)
       rest"

fun select_best_time :: "time list \<Rightarrow> time option \<Rightarrow> time option \<Rightarrow> time option" where
  "select_best_time [] min_time max_time = None"
| "select_best_time (t # ts) None None = Some t"
| "select_best_time (t # ts) (Some min_time) (Some max_time) =
     first_between min_time max_time (t # ts)"
| "select_best_time (t # ts) (Some min_time) None = latest_from min_time None (t # ts)"
| "select_best_time (t # ts) None (Some max_time) = earliest_upto max_time None (t # ts)"

section \<open>Errors\<close>

text \<open>The exceptions the modelled code can raise; none of them is caught by the main loop.\<close>

datatype error =
    TypeError | ValueError | OverflowError | NoSuchElementException
  | UnexpectedTagNameException | NotImplementedError

section \<open>Slot extraction\<close>

text \<open>
  Page texts are strings of characters, one \<^typ>\<open>char\<close> for one character of the Python
  string. A digit is one of the ten ASCII digits.
\<close>

definition is_digit :: "char \<Rightarrow> bool" where
  "is_digit c = (c \<in> set ''0123456789'')"

definition digit_val :: "char \<Rightarrow> nat" where
  "digit_val c = of_char c - 48"

text \<open>
  \<^verbatim>\<open>re.search(r"(\d{2}:\d{2})", s)\<close>: the leftmost two digits, colon, two digits;
  \<open>None\<close> when the text has no such substring.
\<close>

fun re_search_hhmm :: "string \<Rightarrow> string option" where
  "re_search_hhmm (a # b # c # d # e # rest) =
     (if is_digit a \<and> is_digit b \<and> c = CHR '':'' \<and> is_digit d \<and> is_digit e
      then Some [a, b, c, d, e]
      else re_search_hhmm (b # c # d # e # rest))"
| "re_search_hhmm _ = None"

text \<open>
  \<^verbatim>\<open>datetime.strptime(m, "%H:%M").time()\<close> on a match of the pattern above: the hour
  must be below 24 and the minute below 60, otherwise \<^verbatim>\<open>ValueError\<close>.
\<close>

fun strptime_HM :: "string \<Rightarrow> error + time" where
  "strptime_HM [a, b, c, d, e] =
     (let h = 10 * digit_val a + digit_val b; m = 10 * digit_val d + digit_val e
      in if h < 24 \<and> m < 60 then Inr (mk_time h m) else Inl ValueError)"
| "strptime_HM _ = Inl ValueError"

text \<open>
  The extraction loop, \<open>time_slots\<close> being the list it appends to. Subscripting the result
  of a failed search, \<^verbatim>\<open>extracted_time[0]\<close> with \<^verbatim>\<open>extracted_time\<close> being
  \<^verbatim>\<open>None\<close>, raises \<^verbatim>\<open>TypeError\<close>.
\<close>

fun extract_times :: "string list \<Rightarrow> time list \<Rightarrow> error + time list" where
  "extract_times [] time_slots = Inr time_slots"
| "extract_times (time_slot_string # rest) time_slots =
     (case re_search_hhmm time_slot_string of
        None \<Rightarrow> Inl TypeError
      | Some m \<Rightarrow>
          if m \<noteq> [] then
            (case strptime_HM m of
               Inl e \<Rightarrow> Inl e
             | Inr t \<Rightarrow> extract_times rest (time_slots @ [t]))
          else extract_times rest time_slots)"

section \<open>Waiting for a target instant\<close>

text \<open>
  An instant is a number of microseconds. The clock is the environment: \<open>clock i\<close> is what
  the \<open>i\<close>-th call of \<^verbatim>\<open>datetime.now\<close> returns. The loop returns the reading at which
  it stopped and the durations it asked \<^verbatim>\<open>sleep\<close> for, in order; it returns nothing
  when it runs forever.
\<close>

partial_function (option) wait_loop ::
  "(nat \<Rightarrow> int) \<Rightarrow> int \<Rightarrow> nat \<Rightarrow> int list \<Rightarrow> (int \<times> int list) option" where
  "wait_loop clock target i slept =
     (let now = clock i in
      if now \<ge> target then Some (now, slept)
      else wait_loop clock target (Suc i) (slept @ [target - now]))"

definition wait_until_datetime :: "(nat \<Rightarrow> int) \<Rightarrow> int \<Rightarrow> (int \<times> int list) option" where
  "wait_until_datetime clock target = wait_loop clock target 0 []"

section \<open>Dates\<close>

text \<open>
  A \<^verbatim>\<open>datetime.date\<close> is the tuple (year, month, day), compared lexicographically.
  Its constructor raises \<^verbatim>\<open>ValueError\<close> on a year outside 1..9999, a month outside
  1..12 or a day the month does not have.
\<close>

type_synonym date = "nat \<times> nat \<times> nat"

definition is_leap :: "nat \<Rightarrow> bool" where
  "is_leap y = (y mod 4 = 0 \<and> (y mod 100 \<noteq> 0 \<or> y mod 400 = 0))"

definition days_in_month :: "nat \<Rightarrow> nat \<Rightarrow> nat" where
  "days_in_month y m =
     (if m = 2 then (if is_leap y then 29 else 28)
      else if m = 4 \<or> m = 6 \<or> m = 9 \<or> m = 11 then 30 else 31)"

definition mk_date :: "nat \<Rightarrow> nat \<Rightarrow> nat \<Rightarrow> error + date" where
  "mk_date y m d =
     (if 1 \<le> y \<and> y \<le> 9999 \<and> 1 \<le> m \<and> m \<le> 12 \<and> 1 \<le> d \<and> d \<le> days_in_month y m
      then Inr (y, m, d) else Inl ValueError)"

definition days_before_year :: "nat \<Rightarrow> nat" where
  "days_before_year y = (y - 1) * 365 + (y - 1) div 4 - (y - 1) div 100 + (y - 1) div 400"

text \<open>
  The days of a year before a month, from the table of the library and one more day after
  February of a leap year. It is used on the months 1..12 only.
\<close>

definition days_before_month :: "nat \<Rightarrow> nat \<Rightarrow> nat" where
  "days_before_month y m =
     (if 1 \<le> m \<and> m \<le> 12 then
        [0, 31, 59, 90, 120, 151, 181, 212, 243, 273, 304, 334] ! (m - 1)
          + (if m > 2 \<and> is_leap y then 1 else 0)
      else 0)"

text \<open>The ordinal of a date: 1 for the first of January of year 1.\<close>

definition toordinal :: "date \<Rightarrow> nat" where
  "toordinal dt =
     (case dt of (y, m, d) \<Rightarrow> days_before_year y + days_before_month y m + d)"

section \<open>When reservations open\<close>

text \<open>
  Instants are microseconds of universal time since the midnight before ordinal 1.
  \<open>reservations_open\<close> is 18:00 at nine hours east of it on the requested date, minus 31
  days; the subtraction raises \<^verbatim>\<open>OverflowError\<close> when it leaves year 1.
\<close>

definition us_per_second :: int where
  "us_per_second = 1000000"

definition datetime_jst :: "date \<Rightarrow> nat \<Rightarrow> int" where
  "datetime_jst dt hour =
     ((int (toordinal dt) - 1) * 86400 + int hour * 3600 - 9 * 3600) * us_per_second"

definition reservations_open :: "date \<Rightarrow> error + int" where
  "reservations_open dt =
     (if toordinal dt \<le> 31 then Inl OverflowError
      else Inr (datetime_jst dt 18 - 31 * 86400 * us_per_second))"

datatype wait_decision = NoWaitFlag | SkipWait | WaitUntil int

text \<open>
  The wait handling of the main program: \<open>wait\<close> is the flag, \<open>now\<close> the instant read
  before the test. \<open>WaitUntil t\<close> stands for the call \<^verbatim>\<open>wait_until_datetime(t)\<close>.
\<close>

definition wait_handling :: "bool \<Rightarrow> date \<Rightarrow> int \<Rightarrow> error + wait_decision" where
  "wait_handling wait dt now =
     (case reservations_open dt of
        Inl e \<Rightarrow> Inl e
      | Inr opens \<Rightarrow>
          if wait then
            (let target_time = opens - 60 * us_per_second in
             if now < target_time then Inr (WaitUntil opens) else Inr SkipWait)
          else Inr NoWaitFlag)"

section \<open>The page seen in one pass of the main loop\<close>

text \<open>
  One pass of the loop reads the browser through the title, the page source and a fixed
  set of element queries. A \<open>page\<close> holds what each of them answers during that pass:
  a flag says whether \<^verbatim>\<open>safe_find_element\<close> finds the element, the queries that
  depend on the request take its value as argument.
\<close>

record page =
  title :: string
  page_source :: string
  agree_checkbox :: bool
  agree_checkbox_label :: bool
  agree_button :: bool
  continue_button :: bool
  time_table :: bool
  time_slot_texts :: "string list"
  guests_selected :: "nat \<Rightarrow> bool"
  guest_select :: bool
  select_by_index :: "nat \<Rightarrow> error option"
  calendar_header :: "string option"
  next_month_button :: bool
  previous_month_button :: bool
  date_cell :: "nat \<Rightarrow> string option"
  submit_button :: bool

text \<open>
  \<open>time_slot_texts\<close> are the texts of the slot links in page order, \<open>guests_selected g\<close>
  is the query for the selected option of value \<open>g\<close>, \<open>guest_select\<close> says whether an
  element named \<^verbatim>\<open>guest\<close> exists, \<open>select_by_index g\<close> is the exception, if any,
  that wrapping this element in \<^verbatim>\<open>Select\<close> and selecting its option of index \<open>g\<close>
  raises (the element is no \<^verbatim>\<open>select\<close>, it has no option of that index, the option
  is disabled), \<open>calendar_header\<close> is the header's text, and \<open>date_cell d\<close> is the class
  attribute of the day cell found for day \<open>d\<close>.
\<close>

record request =
  guests :: nat
  date :: date
  minTime :: "time option"
  maxTime :: "time option"

datatype element =
    AgreeCheckboxLabel | AgreeButton | ContinueButton | TimeSlotLink nat
  | NextMonthButton | PreviousMonthButton | DateCell | SubmitButton

datatype action =
    Print string | PrintTexts "string list" | PrintTimes "time list" | PrintSelecting time
  | Sleep | Refresh | Click element | SelectByIndex nat

text \<open>The branches of the loop body, under the names the specification gives the page states.\<close>

datatype page_state =
    Loading | CaptchaChallenge | TermsUnchecked | TermsUnagreed | EmailAuthPrompt
  | Congested | GuestUnset | CalendarMonthMismatch | DateUnselected
  | DateSelectedAwaitingNext | TimeSlotListPresent | NoTimeSlotsListed
  | ReservationPendingCompletion | Unclassified

text \<open>
  What one pass does: the branch taken, the effects in order, and whether the loop is
  left (\<^verbatim>\<open>break\<close>).
\<close>

record outcome =
  state :: page_state
  actions :: "action list"
  terminal :: bool

definition pass :: "page_state \<Rightarrow> action list \<Rightarrow> error + outcome" where
  "pass st acts = Inr \<lparr>state = st, actions = acts, terminal = False\<rparr>"

text \<open>\<^verbatim>\<open>sub in text\<close> on strings.\<close>

fun str_in :: "string \<Rightarrow> string \<Rightarrow> bool" where
  "str_in sub [] = (sub = [])"
| "str_in sub (c # cs) = (prefix sub (c # cs) \<or> str_in sub cs)"

text \<open>\<^verbatim>\<open>xs.index(x)\<close>, called only with a member of the list.\<close>

fun index_of :: "'a \<Rightarrow> 'a list \<Rightarrow> nat" where
  "index_of x [] = 0"
| "index_of x (y # ys) = (if x = y then 0 else Suc (index_of x ys))"

text \<open>\<^verbatim>\<open>re.split('[^0-9]', text)\<close>: the pieces between the characters that are no digits.\<close>

fun split_non_digits :: "string \<Rightarrow> string list" where
  "split_non_digits [] = [[]]"
| "split_non_digits (c # cs) =
     (if is_digit c then
        (case split_non_digits cs of
           [] \<Rightarrow> [[c]]
         | piece # pieces \<Rightarrow> (c # piece) # pieces)
      else [] # split_non_digits cs)"

text \<open>
  \<^verbatim>\<open>int(s)\<close> on a piece of digits: the empty piece raises \<^verbatim>\<open>ValueError\<close>, and so
  does one longer than the interpreter's limit of 4300 digits.
\<close>

fun digits_val :: "nat \<Rightarrow> string \<Rightarrow> nat" where
  "digits_val acc [] = acc"
| "digits_val acc (c # cs) = digits_val (10 * acc + digit_val c) cs"

definition py_int :: "string \<Rightarrow> error + nat" where
  "py_int s = (if s = [] \<or> length s > 4300 then Inl ValueError else Inr (digits_val 0 s))"

section \<open>One pass of the main loop\<close>

text \<open>The end of the loop body, reached when no branch has continued.\<close>

definition fallback :: "action list \<Rightarrow> error + outcome" where
  "fallback acts = pass Unclassified (acts @ [Sleep, Refresh])"

text \<open>From the day cell on: the displayed month is taken to be the requested one.\<close>

definition day_and_next :: "request \<Rightarrow> page \<Rightarrow> error + outcome" where
  "day_and_next req pg =
     (case date_cell pg (snd (snd (date req))) of
        None \<Rightarrow> pass Unclassified [Print ''WARN: Correct month, but date cell not found.'', Sleep]
      | Some cls \<Rightarrow>
          if \<not> str_in ''selected'' cls then
            pass DateUnselected [Print ''Selecting the day of the month.'', Click DateCell]
          else if submit_button pg then
            pass DateSelectedAwaitingNext [Print ''Pressing Next step button.'', Click SubmitButton]
          else fallback [Print ''WARN: Calendar next button not found.''])"

text \<open>The month navigation, entered with the text of the calendar header.\<close>

definition calendar :: "request \<Rightarrow> page \<Rightarrow> string \<Rightarrow> error + outcome" where
  "calendar req pg header_text =
     (case split_non_digits header_text of
        y_text # m_text # _ \<Rightarrow>
          (case py_int y_text of
             Inl e \<Rightarrow> Inl e
           | Inr selected_year \<Rightarrow>
               (case py_int m_text of
                  Inl e \<Rightarrow> Inl e
                | Inr selected_month \<Rightarrow>
                    if selected_year \<noteq> fst (date req) \<or> selected_month \<noteq> fst (snd (date req)) then
                      (case mk_date selected_year selected_month (snd (snd (date req))) of
                         Inl e \<Rightarrow> Inl e
                       | Inr shown \<Rightarrow>
                           if shown < date req then
                             (if next_month_button pg then
                                pass CalendarMonthMismatch
                                  [Print ''Selecting the next month.'', Click NextMonthButton]
                              else day_and_next req pg)
                           else if shown > date req then
                             (if previous_month_button pg then
                                pass CalendarMonthMismatch
                                  [Print ''Selecting the previous month.'', Click PreviousMonthButton]
                              else day_and_next req pg)
                           else day_and_next req pg)
                    else day_and_next req pg))
      | _ \<Rightarrow> pass Unclassified [Print ''WARN: Calendar header text not in expected format.'', Sleep])"

text \<open>The guest count and the calendar: the last branch of the reservation page.\<close>

definition guests_and_calendar :: "request \<Rightarrow> page \<Rightarrow> error + outcome" where
  "guests_and_calendar req pg =
     (if \<not> guests_selected pg (guests req) then
        (if guest_select pg then
           (case select_by_index pg (guests req) of
              Some e \<Rightarrow> Inl e
            | None \<Rightarrow>
                pass GuestUnset
                  [Print ''Selecting the number of guests.'', SelectByIndex (guests req)])
         else Inl NoSuchElementException)
      else
        (case calendar_header pg of
           None \<Rightarrow> fallback []
         | Some header_text \<Rightarrow> calendar req pg header_text))"

text \<open>The time table: extraction of the slots, selection, click.\<close>

definition time_slots_branch :: "request \<Rightarrow> page \<Rightarrow> error + outcome" where
  "time_slots_branch req pg =
     (if time_slot_texts pg = [] then
        pass NoTimeSlotsListed [Print ''No time slots found, refreshing...'', Sleep, Refresh]
      else
        (case extract_times (time_slot_texts pg) [] of
           Inl e \<Rightarrow> Inl e
         | Inr time_slots \<Rightarrow>
             (case select_best_time time_slots (minTime req) (maxTime req) of
                Some best_time_slot \<Rightarrow>
                  pass TimeSlotListPresent
                    [PrintTexts (time_slot_texts pg), PrintTimes time_slots,
                     PrintSelecting best_time_slot,
                     Click (TimeSlotLink (index_of best_time_slot time_slots))]
              | None \<Rightarrow>
                  pass TimeSlotListPresent
                    [PrintTexts (time_slot_texts pg), PrintTimes time_slots,
                     Print ''No available time slots within the specified time range.'',
                     Sleep, Refresh])))"

definition table_reservation :: "request \<Rightarrow> page \<Rightarrow> error + outcome" where
  "table_reservation req pg =
     (if time_table pg then time_slots_branch req pg
      else if str_in ''complete your reservation'' (page_source pg) then
        Inr \<lparr>state = ReservationPendingCompletion,
             actions = [Print ''Reservation waiting for completion.''], terminal = True\<rparr>
      else guests_and_calendar req pg)"

text \<open>The checks after the terms page, each falling through to the next.\<close>

definition after_email :: "request \<Rightarrow> page \<Rightarrow> error + outcome" where
  "after_email req pg =
     (if str_in ''congested'' (page_source pg) then
        pass Congested [Print ''Site congested, refreshing...'', Sleep, Refresh]
      else if str_in ''Table Reservation'' (page_source pg) then table_reservation req pg
      else fallback [])"

definition after_terms :: "request \<Rightarrow> page \<Rightarrow> error + outcome" where
  "after_terms req pg =
     (if str_in ''About Email Address Authentication'' (page_source pg) \<and> continue_button pg then
        pass EmailAuthPrompt [Print ''Clicking continue button.'', Click ContinueButton]
      else after_email req pg)"

definition terms :: "request \<Rightarrow> page \<Rightarrow> error + outcome" where
  "terms req pg =
     (if agree_checkbox pg then
        (if agree_checkbox_label pg then
           pass TermsUnchecked [Print ''Checking terms checkbox.'', Click AgreeCheckboxLabel]
         else
           pass TermsUnchecked
             [Print ''Checking terms checkbox.'', Print ''WARN: Terms checkbox label not found.'',
              Sleep])
      else if agree_button pg then
        (if str_in ''no available seats can be found'' (page_source pg) then
           pass TermsUnagreed
             [Print ''Clicking terms agree button.'', Print ''No available seats found, refreshing...'',
              Click AgreeButton, Sleep, Refresh]
         else pass TermsUnagreed [Print ''Clicking terms agree button.'', Click AgreeButton])
      else after_terms req pg)"

text \<open>The loop body.\<close>

definition tick :: "request \<Rightarrow> page \<Rightarrow> error + outcome" where
  "tick req pg =
     (if title pg = [] \<or> page_source pg = [] then pass Loading [Sleep]
      else if str_in ''confirm you are human'' (page_source pg) then
        pass CaptchaChallenge [Print ''Captcha detected. Please solve it manually.'', Sleep]
      else if str_in ''/ Agree to terms'' (page_source pg) then terms req pg
      else after_terms req pg)"

section \<open>The priority order of the page states\<close>














section \<open>Example inputs\<close>

text \<open>
  A reservation page on which no element query finds anything, and a request for two
  guests on the 31st of January 2027 without time bounds.
\<close>

definition reservation_page :: page where
  "reservation_page =
     \<lparr>title = ''Reservation'', page_source = ''Table Reservation'',
      agree_checkbox = False, agree_checkbox_label = False, agree_button = False,
      continue_button = False, time_table = False, time_slot_texts = [],
      guests_selected = (\<lambda>g. False), guest_select = False,
      select_by_index = (\<lambda>g. None), calendar_header = None,
      next_month_button = False, previous_month_button = False,
      date_cell = (\<lambda>d. None), submit_button = False\<rparr>"

definition example_request :: request where
  "example_request = \<lparr>guests = 2, date = (2027, 1, 31), minTime = None, maxTime = None\<rparr>"

section \<open>Properties of the slot selection\<close>

lemma first_between_filter:
  "first_between lo hi S =
     (case filter (\<lambda>t. lo \<le> t \<and> t \<le> hi) S of [] \<Rightarrow> None | t # _ \<Rightarrow> Some t)"
  by (induction S) simp_all

lemma Max_absorb_less:
  fixes x l :: "'a::linorder"
  assumes "finite A" "l \<le> x"
  shows "Max (insert x (A \<union> {l})) = Max (insert x A)"
proof -
  have c: "insert x (A \<union> {l}) = insert l (insert x A)" by auto
  have m: "Max (insert l (insert x A)) = max l (Max (insert x A))"
    using assms(1) by (intro Max_insert) auto
  have "x \<le> Max (insert x A)" using assms(1) by (intro Max_ge) auto
  with assms(2) have "l \<le> Max (insert x A)" by (rule order_trans)
  then have "max l (Max (insert x A)) = Max (insert x A)" by (rule max_absorb2)
  with c m show ?thesis by presburger
qed

lemma Max_absorb_ge:
  fixes x l :: "'a::linorder"
  assumes "finite A" "x \<le> l"
  shows "Max (insert x (A \<union> {l})) = Max (A \<union> {l})"
proof -
  have m: "Max (insert x (A \<union> {l})) = max x (Max (A \<union> {l}))"
    using assms(1) by (intro Max_insert) auto
  have "l \<le> Max (A \<union> {l})" using assms(1) by (intro Max_ge) auto
  with assms(2) have "x \<le> Max (A \<union> {l})" by (rule order_trans)
  then have "max x (Max (A \<union> {l})) = Max (A \<union> {l})" by (rule max_absorb2)
  with m show ?thesis by presburger
qed

lemma latest_from_Max:
  "latest_from lo acc S =
     (if {s \<in> set S. lo \<le> s} \<union> set_option acc = {} then None
      else Some (Max ({s \<in> set S. lo \<le> s} \<union> set_option acc)))"
proof (induction S arbitrary: acc)
  case Nil
  then show ?case by (cases acc) simp_all
next
  case (Cons x xs)
  define A where "A = {s \<in> set xs. lo \<le> s}"
  have fin: "finite A" by (simp add: A_def)
  have IH: "latest_from lo acc' xs =
     (if A \<union> set_option acc' = {} then None else Some (Max (A \<union> set_option acc')))" for acc'
    unfolding A_def by (rule Cons.IH)
  show ?case
  proof (cases "lo \<le> x")
    case False
    then have "{s \<in> set (x # xs). lo \<le> s} = A" by (auto simp: A_def)
    with False IH show ?thesis by simp
  next
    case True
    then have eq: "{s \<in> set (x # xs). lo \<le> s} = insert x A" by (auto simp: A_def)
    show ?thesis
    proof (cases acc)
      case None
      with True eq IH show ?thesis by simp
    next
      case (Some l)
      show ?thesis
      proof (cases "l < x")
        case True
        then have "Max (insert x (A \<union> {l})) = Max (insert x A)"
          using fin by (intro Max_absorb_less) auto
        moreover have "latest_from lo acc (x # xs) = latest_from lo (Some x) xs"
          using True Some \<open>lo \<le> x\<close> by simp
        moreover have "{s \<in> set (x # xs). lo \<le> s} \<union> set_option acc = insert x (A \<union> {l})"
          using eq Some by auto
        moreover have "A \<union> set_option (Some x) = insert x A" by simp
        ultimately show ?thesis using IH [of "Some x"] by simp
      next
        case False
        then have "Max (insert x (A \<union> {l})) = Max (A \<union> {l})"
          using fin by (intro Max_absorb_ge) auto
        moreover have "latest_from lo acc (x # xs) = latest_from lo (Some l) xs"
          using False Some \<open>lo \<le> x\<close> by simp
        moreover have "{s \<in> set (x # xs). lo \<le> s} \<union> set_option acc = insert x (A \<union> {l})"
          using eq Some by auto
        moreover have "A \<union> set_option (Some l) = A \<union> {l}" by simp
        ultimately show ?thesis using IH [of "Some l"] by simp
      qed
    qed
  qed
qed

lemma Min_absorb_gt:
  fixes x l :: "'a::linorder"
  assumes "finite A" "x \<le> l"
  shows "Min (insert x (A \<union> {l})) = Min (insert x A)"
proof -
  have c: "insert x (A \<union> {l}) = insert l (insert x A)" by auto
  have m: "Min (insert l (insert x A)) = min l (Min (insert x A))"
    using assms(1) by (intro Min_insert) auto
  have "Min (insert x A) \<le> x" using assms(1) by (intro Min_le) auto
  then have "Min (insert x A) \<le> l" using assms(2) by (rule order_trans)
  then have "min l (Min (insert x A)) = Min (insert x A)" by (rule min_absorb2)
  with c m show ?thesis by presburger
qed

lemma Min_absorb_le:
  fixes x l :: "'a::linorder"
  assumes "finite A" "l \<le> x"
  shows "Min (insert x (A \<union> {l})) = Min (A \<union> {l})"
proof -
  have m: "Min (insert x (A \<union> {l})) = min x (Min (A \<union> {l}))"
    using assms(1) by (intro Min_insert) auto
  have "Min (A \<union> {l}) \<le> l" using assms(1) by (intro Min_le) auto
  then have "Min (A \<union> {l}) \<le> x" using assms(2) by (rule order_trans)
  then have "min x (Min (A \<union> {l})) = Min (A \<union> {l})" by (rule min_absorb2)
  with m show ?thesis by presburger
qed

lemma earliest_upto_Min:
  "earliest_upto hi acc S =
     (if {s \<in> set S. s \<le> hi} \<union> set_option acc = {} then None
      else Some (Min ({s \<in> set S. s \<le> hi} \<union> set_option acc)))"
proof (induction S arbitrary: acc)
  case Nil
  then show ?case by (cases acc) simp_all
next
  case (Cons x xs)
  define A where "A = {s \<in> set xs. s \<le> hi}"
  have fin: "finite A" by (simp add: A_def)
  have IH: "earliest_upto hi acc' xs =
     (if A \<union> set_option acc' = {} then None else Some (Min (A \<union> set_option acc')))" for acc'
    unfolding A_def by (rule Cons.IH)
  show ?case
  proof (cases "x \<le> hi")
    case False
    then have "{s \<in> set (x # xs). s \<le> hi} = A" by (auto simp: A_def)
    with False IH show ?thesis by simp
  next
    case True
    then have eq: "{s \<in> set (x # xs). s \<le> hi} = insert x A" by (auto simp: A_def)
    show ?thesis
    proof (cases acc)
      case None
      with True eq IH show ?thesis by simp
    next
      case (Some l)
      show ?thesis
      proof (cases "x < l")
        case True
        then have "Min (insert x (A \<union> {l})) = Min (insert x A)"
          using fin by (intro Min_absorb_gt) auto
        moreover have "earliest_upto hi acc (x # xs) = earliest_upto hi (Some x) xs"
          using True Some \<open>x \<le> hi\<close> by simp
        moreover have "{s \<in> set (x # xs). s \<le> hi} \<union> set_option acc = insert x (A \<union> {l})"
          using eq Some by auto
        moreover have "A \<union> set_option (Some x) = insert x A" by simp
        ultimately show ?thesis using IH [of "Some x"] by simp
      next
        case False
        then have "Min (insert x (A \<union> {l})) = Min (A \<union> {l})"
          using fin by (intro Min_absorb_le) auto
        moreover have "earliest_upto hi acc (x # xs) = earliest_upto hi (Some l) xs"
          using False Some \<open>x \<le> hi\<close> by simp
        moreover have "{s \<in> set (x # xs). s \<le> hi} \<union> set_option acc = insert x (A \<union> {l})"
          using eq Some by auto
        moreover have "A \<union> set_option (Some l) = A \<union> {l}" by simp
        ultimately show ?thesis using IH [of "Some l"] by simp
      qed
    qed
  qed
qed


text \<open>
  Claim C1. With both bounds set, \<open>select_best_time\<close> returns the first slot, in the
  order of the list, that lies between the bounds (both inclusive), and returns no slot
  exactly when no slot of the list lies between them.
\<close>

theorem select_best_time_both_bounds:
  "select_best_time S (Some lo) (Some hi) =
     (case filter (\<lambda>t. lo \<le> t \<and> t \<le> hi) S of [] \<Rightarrow> None | t # _ \<Rightarrow> Some t)
   \<and> (select_best_time S (Some lo) (Some hi) = None
        \<longleftrightarrow> (\<forall>t \<in> set S. \<not> (lo \<le> t \<and> t \<le> hi)))"
proof (cases S)
  case Nil
  then show ?thesis by simp
next
  case (Cons t ts)
  have "select_best_time S (Some lo) (Some hi) = first_between lo hi S"
    using Cons by simp
  moreover have "(first_between lo hi S = None) = (\<forall>t \<in> set S. \<not> (lo \<le> t \<and> t \<le> hi))"
    by (induction S) simp_all
  ultimately show ?thesis by (simp only: first_between_filter simp_thms)
qed

text \<open>The slots 09:00, 10:00, 11:00 between 09:30 and 10:30, and a list with no such slot.\<close>

theorem select_best_time_both_bounds_witness:
  "select_best_time [mk_time 9 0, mk_time 10 0, mk_time 11 0]
     (Some (mk_time 9 30)) (Some (mk_time 10 30)) = Some (mk_time 10 0)
   \<and> select_best_time [mk_time 9 0, mk_time 11 0]
        (Some (mk_time 9 30)) (Some (mk_time 10 30)) = None"
proof -
  have "select_best_time [mk_time 9 0, mk_time 10 0, mk_time 11 0]
          (Some (mk_time 9 30)) (Some (mk_time 10 30)) =
        (case filter (\<lambda>t. mk_time 9 30 \<le> t \<and> t \<le> mk_time 10 30)
                [mk_time 9 0, mk_time 10 0, mk_time 11 0] of
           [] \<Rightarrow> None | t # _ \<Rightarrow> Some t)"
    using select_best_time_both_bounds by blast
  moreover have "\<forall>t \<in> set [mk_time 9 0, mk_time 11 0]. \<not> (mk_time 9 30 \<le> t \<and> t \<le> mk_time 10 30)"
    by (simp add: mk_time_def)
  then have "select_best_time [mk_time 9 0, mk_time 11 0]
        (Some (mk_time 9 30)) (Some (mk_time 10 30)) = None"
    using select_best_time_both_bounds [of "[mk_time 9 0, mk_time 11 0]"] by blast
  ultimately show ?thesis by (simp add: mk_time_def)
qed

text \<open>
  Claim C2. With only the lower bound set, \<open>select_best_time\<close> returns the greatest of
  the slots that are not before the bound, and no slot when there is none; for the slots
  10:25, 10:40, 11:00 and the bound 10:30 it returns 11:00.
\<close>

theorem select_best_time_min_only:
  "select_best_time S (Some lo) None =
     (if {s \<in> set S. lo \<le> s} = {} then None else Some (Max {s \<in> set S. lo \<le> s}))
   \<and> select_best_time [mk_time 10 25, mk_time 10 40, mk_time 11 0] (Some (mk_time 10 30)) None
       = Some (mk_time 11 0)"
proof -
  have "select_best_time S (Some lo) None = latest_from lo None S"
    by (cases S) simp_all
  then have "select_best_time S (Some lo) None =
     (if {s \<in> set S. lo \<le> s} = {} then None else Some (Max {s \<in> set S. lo \<le> s}))"
    by (simp only: latest_from_Max option.set Un_empty_right)
  moreover have "select_best_time [mk_time 10 25, mk_time 10 40, mk_time 11 0]
      (Some (mk_time 10 30)) None = Some (mk_time 11 0)"
    by (simp add: mk_time_def)
  ultimately show ?thesis by (rule conjI)
qed

text \<open>A list that is not ascending: the greatest qualifying slot is in the middle.\<close>

theorem select_best_time_min_only_witness:
  "{s \<in> set [mk_time 10 25, mk_time 12 0, mk_time 10 40]. mk_time 10 30 \<le> s} \<noteq> {}
   \<and> select_best_time [mk_time 10 25, mk_time 12 0, mk_time 10 40] (Some (mk_time 10 30)) None
       = Some (mk_time 12 0)
   \<and> Max {s \<in> set [mk_time 10 25, mk_time 12 0, mk_time 10 40]. mk_time 10 30 \<le> s} = mk_time 12 0"
proof -
  have "mk_time 12 0 \<in> {s \<in> set [mk_time 10 25, mk_time 12 0, mk_time 10 40]. mk_time 10 30 \<le> s}"
    by (simp add: mk_time_def)
  then have ne: "{s \<in> set [mk_time 10 25, mk_time 12 0, mk_time 10 40]. mk_time 10 30 \<le> s} \<noteq> {}"
    by blast
  have v: "select_best_time [mk_time 10 25, mk_time 12 0, mk_time 10 40] (Some (mk_time 10 30)) None
       = Some (mk_time 12 0)"
    by (simp add: mk_time_def)
  from ne v select_best_time_min_only [of "[mk_time 10 25, mk_time 12 0, mk_time 10 40]" "mk_time 10 30"]
  have "Max {s \<in> set [mk_time 10 25, mk_time 12 0, mk_time 10 40]. mk_time 10 30 \<le> s} = mk_time 12 0"
    by (simp only: if_False option.inject simp_thms)
  with ne v show ?thesis by blast
qed

text \<open>
  Claim C3. With only the upper bound set, \<open>select_best_time\<close> returns the least of
  the slots that are not after the bound, and no slot when there is none; for the slots
  10:25, 10:40 and the bound 10:30 it returns 10:25.
\<close>

theorem select_best_time_max_only:
  "select_best_time S None (Some hi) =
     (if {s \<in> set S. s \<le> hi} = {} then None else Some (Min {s \<in> set S. s \<le> hi}))
   \<and> select_best_time [mk_time 10 25, mk_time 10 40] None (Some (mk_time 10 30))
       = Some (mk_time 10 25)"
proof -
  have "select_best_time S None (Some hi) = earliest_upto hi None S"
    by (cases S) simp_all
  then have "select_best_time S None (Some hi) =
     (if {s \<in> set S. s \<le> hi} = {} then None else Some (Min {s \<in> set S. s \<le> hi}))"
    by (simp only: earliest_upto_Min option.set Un_empty_right)
  moreover have "select_best_time [mk_time 10 25, mk_time 10 40] None (Some (mk_time 10 30))
       = Some (mk_time 10 25)"
    by (simp add: mk_time_def)
  ultimately show ?thesis by (rule conjI)
qed

text \<open>A descending list: the least qualifying slot comes last.\<close>

theorem select_best_time_max_only_witness:
  "{s \<in> set [mk_time 10 40, mk_time 10 25, mk_time 9 0]. s \<le> mk_time 10 30} \<noteq> {}
   \<and> select_best_time [mk_time 10 40, mk_time 10 25, mk_time 9 0] None (Some (mk_time 10 30))
       = Some (mk_time 9 0)
   \<and> Min {s \<in> set [mk_time 10 40, mk_time 10 25, mk_time 9 0]. s \<le> mk_time 10 30} = mk_time 9 0"
proof -
  have "mk_time 9 0 \<in> {s \<in> set [mk_time 10 40, mk_time 10 25, mk_time 9 0]. s \<le> mk_time 10 30}"
    by (simp add: mk_time_def)
  then have ne: "{s \<in> set [mk_time 10 40, mk_time 10 25, mk_time 9 0]. s \<le> mk_time 10 30} \<noteq> {}"
    by blast
  have v: "select_best_time [mk_time 10 40, mk_time 10 25, mk_time 9 0] None (Some (mk_time 10 30))
       = Some (mk_time 9 0)"
    by (simp add: mk_time_def)
  from ne v select_best_time_max_only [of "[mk_time 10 40, mk_time 10 25, mk_time 9 0]" "mk_time 10 30"]
  have "Min {s \<in> set [mk_time 10 40, mk_time 10 25, mk_time 9 0]. s \<le> mk_time 10 30} = mk_time 9 0"
    by (simp only: if_False option.inject simp_thms)
  with ne v show ?thesis by blast
qed

text \<open>
  Claim C4. On the empty list \<open>select_best_time\<close> returns no slot, whatever the bounds;
  on a list that is not empty and without bounds it returns the first slot of the list.
\<close>

theorem select_best_time_empty_or_unbounded:
  "select_best_time [] min_time max_time = None
   \<and> (S \<noteq> [] \<longrightarrow> select_best_time S None None = Some (S ! 0))"
  by (cases S) simp_all

text \<open>The empty list with a bound, and an unsorted list without bounds.\<close>

theorem select_best_time_empty_or_unbounded_witness:
  "select_best_time [] (Some (mk_time 9 0)) None = None
   \<and> [mk_time 11 0, mk_time 10 0] \<noteq> []
   \<and> select_best_time [mk_time 11 0, mk_time 10 0] None None = Some (mk_time 11 0)"
  using select_best_time_empty_or_unbounded
          [of "Some (mk_time 9 0)" None "[mk_time 11 0, mk_time 10 0]"]
  by simp

section \<open>Properties of the slot extraction\<close>

text \<open>
  Claim C5. A slot text without a time makes the extraction raise \<^verbatim>\<open>TypeError\<close>
  instead of being dropped: here the second of two texts has none. A text whose digits
  are no time of day, as 25:61, makes it raise \<^verbatim>\<open>ValueError\<close>.
\<close>

theorem extract_times_no_time_raises:
  "extract_times [''B 10:25~ Available'', ''C Available''] [] = Inl TypeError
   \<and> extract_times [''B 10:25~ Available'', ''C 25:61~ Available''] [] = Inl ValueError"
  by (simp add: is_digit_def digit_val_def mk_time_def)

section \<open>Properties of the waiter\<close>

lemma wait_loop_returns:
  "target \<le> clock (i + n) \<Longrightarrow> \<forall>j<n. clock (i + j) < target \<Longrightarrow>
   wait_loop clock target i slept =
     Some (clock (i + n), slept @ map (\<lambda>j. target - clock (i + j)) [0..<n])"
proof (induction n arbitrary: i slept)
  case 0
  then show ?case by (subst wait_loop.simps) simp
next
  case (Suc n)
  have lt: "clock i < target" using Suc.prems(2) [rule_format, of 0] by simp
  have reach: "target \<le> clock (Suc i + n)" using Suc.prems(1) by simp
  have below: "\<forall>j<n. clock (Suc i + j) < target"
  proof (intro allI impI)
    fix j assume "j < n"
    then show "clock (Suc i + j) < target" using Suc.prems(2) [rule_format, of "Suc j"] by simp
  qed
  have step: "wait_loop clock target i slept =
      wait_loop clock target (Suc i) (slept @ [target - clock i])"
    using lt by (subst wait_loop.simps) simp
  have rest: "wait_loop clock target (Suc i) (slept @ [target - clock i]) =
      Some (clock (Suc i + n),
        (slept @ [target - clock i]) @ map (\<lambda>j. target - clock (Suc i + j)) [0..<n])"
    using reach below by (rule Suc.IH)
  have "map (\<lambda>j. target - clock (i + j)) [0..<Suc n]
      = (target - clock (i + 0)) # map (\<lambda>j. target - clock (i + Suc j)) [0..<n]"
    by (rule map_upt_Suc)
  then have sleeps: "slept @ map (\<lambda>j. target - clock (i + j)) [0..<Suc n]
      = (slept @ [target - clock i]) @ map (\<lambda>j. target - clock (Suc i + j)) [0..<n]"
    by simp
  show ?case unfolding step rest sleeps by simp
qed

lemma wait_loop_Some_reaches:
  assumes "wait_loop clock target i slept = Some r"
  shows "\<exists>n. target \<le> clock (i + n) \<and> fst r = clock (i + n)"
proof -
  have step: "\<exists>n. t \<le> c (k + n) \<and> fst y = c (k + n)"
    if IH: "\<And>c t k s y. wl c t k s = Some y \<Longrightarrow> \<exists>n. t \<le> c (k + n) \<and> fst y = c (k + n)"
    and eq: "(let now = c k in
              if t \<le> now then Some (now, s) else wl c t (Suc k) (s @ [t - now])) = Some y"
    for wl :: "(nat \<Rightarrow> int) \<Rightarrow> int \<Rightarrow> nat \<Rightarrow> int list \<Rightarrow> (int \<times> int list) option"
      and c t k s y
  proof (cases "t \<le> c k")
    case True
    with eq have "fst y = c k" by (auto simp: Let_def)
    with True have "t \<le> c (k + 0) \<and> fst y = c (k + 0)" by simp
    then show ?thesis by (rule exI)
  next
    case False
    with eq have "wl c t (Suc k) (s @ [t - c k]) = Some y" by (simp add: Let_def)
    then obtain n where "t \<le> c (Suc k + n) \<and> fst y = c (Suc k + n)"
      using IH by blast
    then have "t \<le> c (k + Suc n) \<and> fst y = c (k + Suc n)" by simp
    then show ?thesis by (rule exI)
  qed
  show ?thesis
    by (rule wait_loop.raw_induct
          [where P = "\<lambda>c t k s y. \<exists>n. t \<le> c (k + n) \<and> fst y = c (k + n)", OF step assms])
qed

text \<open>
  Claim C8. \<open>wait_until_datetime\<close> returns only at a clock reading that has reached the
  target. It returns at the first such reading, having asked before, at every earlier
  reading, for a sleep of exactly the target minus that reading; so it returns at once,
  without sleeping, when the first reading has reached the target. It runs forever
  exactly when no reading reaches the target.
\<close>

theorem wait_until_datetime_not_early:
  "(wait_until_datetime clock target = Some (now, slept) \<longrightarrow> target \<le> now)
   \<and> (\<forall>n. target \<le> clock n \<and> (\<forall>i<n. clock i < target) \<longrightarrow>
          wait_until_datetime clock target =
            Some (clock n, map (\<lambda>i. target - clock i) [0..<n]))
   \<and> (wait_until_datetime clock target = None \<longleftrightarrow> (\<forall>i. clock i < target))"
proof (intro conjI allI impI)
  assume "wait_until_datetime clock target = Some (now, slept)"
  then have "wait_loop clock target 0 [] = Some (now, slept)"
    by (simp only: wait_until_datetime_def)
  from wait_loop_Some_reaches [OF this] show "target \<le> now" by auto
next
  fix n assume "target \<le> clock n \<and> (\<forall>i<n. clock i < target)"
  then have "target \<le> clock (0 + n)" and "\<forall>j<n. clock (0 + j) < target" by simp_all
  from wait_loop_returns [OF this, of "[]"]
  show "wait_until_datetime clock target = Some (clock n, map (\<lambda>i. target - clock i) [0..<n])"
    by (simp add: wait_until_datetime_def)
next
  show "wait_until_datetime clock target = None \<longleftrightarrow> (\<forall>i. clock i < target)"
  proof
    assume none: "wait_until_datetime clock target = None"
    show "\<forall>i. clock i < target"
    proof (rule ccontr)
      assume "\<not> (\<forall>i. clock i < target)"
      then have ex: "\<exists>n. target \<le> clock n" by (simp add: not_less)
      define m where "m = (LEAST n. target \<le> clock n)"
      have "target \<le> clock m" unfolding m_def using ex by (rule LeastI_ex)
      moreover have "\<forall>i<m. clock i < target"
        unfolding m_def using not_less_Least not_less by blast
      ultimately have "target \<le> clock (0 + m)" and "\<forall>j<m. clock (0 + j) < target" by simp_all
      from wait_loop_returns [OF this, of "[]"] none show False
        by (simp add: wait_until_datetime_def)
    qed
  next
    assume below: "\<forall>i. clock i < target"
    show "wait_until_datetime clock target = None"
    proof (cases "wait_until_datetime clock target")
      case None
      then show ?thesis .
    next
      case (Some r)
      then have "wait_loop clock target 0 [] = Some r" by (simp only: wait_until_datetime_def)
      from wait_loop_Some_reaches [OF this] obtain n where "target \<le> clock (0 + n)" by blast
      with below [rule_format, of "0 + n"] show ?thesis by simp
    qed
  qed
qed

text \<open>
  A clock that reads 4 s at the first call and 10.00025 s afterwards, with the target at
  10 s: one sleep of 6 s, and the return at the second reading.
\<close>

theorem wait_until_datetime_not_early_witness:
  "wait_until_datetime (\<lambda>i. if i = 0 then 4000000 else 10000250) 10000000
     = Some (10000250, [6000000])
   \<and> (10000000::int) \<le> 10000250
   \<and> \<not> (\<forall>i. (if i = (0::nat) then 4000000 else 10000250) < (10000000::int))"
proof -
  let ?clock = "\<lambda>i::nat. if i = 0 then (4000000::int) else 10000250"
  note facts = wait_until_datetime_not_early [of ?clock 10000000 10000250 "[6000000]"]
  have "(10000000::int) \<le> ?clock 1 \<and> (\<forall>i<1. ?clock i < 10000000)" by simp
  with facts have "wait_until_datetime ?clock 10000000 =
      Some (?clock 1, map (\<lambda>i. 10000000 - ?clock i) [0..<1])"
    by blast
  then have r: "wait_until_datetime ?clock 10000000 = Some (10000250, [6000000])" by simp
  with facts have reached: "(10000000::int) \<le> 10000250" by blast
  from r have "wait_until_datetime ?clock 10000000 \<noteq> None" by simp
  with facts have "\<not> (\<forall>i. ?clock i < 10000000)" by blast
  with r reached show ?thesis by blast
qed

section \<open>Properties of the wait handling\<close>

lemma toordinal_2026_12_25: "toordinal (2026, 12, 25) = 739975"
  by (simp add: toordinal_def days_before_year_def days_before_month_def is_leap_def)

lemma toordinal_2026_11_24: "toordinal (2026, 11, 24) = 739944"
  by (simp add: toordinal_def days_before_year_def days_before_month_def is_leap_def)

text \<open>
  Claim C9, as stated, fails: for the 25th of December 2026 reservations open at
  63931107600000000; thirty seconds earlier the opening is still ahead, and the wait is
  skipped all the same.
\<close>

theorem skip_wait_before_opening:
  "reservations_open (2026, 12, 25) = Inr 63931107600000000
   \<and> (63931107570000000::int) < 63931107600000000
   \<and> wait_handling True (2026, 12, 25) 63931107570000000 = Inr SkipWait"
  by (simp add: wait_handling_def reservations_open_def datetime_jst_def us_per_second_def
      toordinal_2026_12_25)

text \<open>
  Claim C9, amended. With the wait flag set, the wait is skipped exactly when the current
  instant is not before one minute ahead of the opening instant; otherwise the waiter is
  called with the opening instant as target. The opening instant is 18:00, nine hours
  east of universal time, on the day 31 days before the requested date.
\<close>

theorem wait_handling_flag_set:
  "(reservations_open dt = Inr opens \<longrightarrow>
      wait_handling True dt now =
        Inr (if now < opens - 60 * us_per_second then WaitUntil opens else SkipWait))
   \<and> (toordinal earlier + 31 = toordinal dt \<and> 0 < toordinal earlier \<longrightarrow>
        reservations_open dt = Inr (datetime_jst earlier 18))"
proof (intro conjI impI)
  assume "reservations_open dt = Inr opens"
  then show "wait_handling True dt now =
      Inr (if now < opens - 60 * us_per_second then WaitUntil opens else SkipWait)"
    by (simp add: wait_handling_def Let_def)
next
  assume a: "toordinal earlier + 31 = toordinal dt \<and> 0 < toordinal earlier"
  then have "int (toordinal dt) = int (toordinal earlier) + 31" by linarith
  moreover from a have "\<not> toordinal dt \<le> 31" by linarith
  ultimately show "reservations_open dt = Inr (datetime_jst earlier 18)"
    by (simp add: reservations_open_def datetime_jst_def us_per_second_def)
qed

text \<open>
  The 25th of December 2026: exactly one minute before the opening the wait is skipped,
  one microsecond earlier the waiter is called; the opening is on the 24th of November.
\<close>

theorem wait_handling_flag_set_witness:
  "wait_handling True (2026, 12, 25) 63931107540000000 = Inr SkipWait
   \<and> wait_handling True (2026, 12, 25) 63931107539999999 = Inr (WaitUntil 63931107600000000)
   \<and> reservations_open (2026, 12, 25) = Inr (datetime_jst (2026, 11, 24) 18)"
proof -
  have o: "reservations_open (2026, 12, 25) = Inr 63931107600000000"
    by (simp add: reservations_open_def datetime_jst_def us_per_second_def toordinal_2026_12_25)
  have e: "toordinal (2026, 11, 24) + 31 = toordinal (2026, 12, 25) \<and> 0 < toordinal (2026, 11, 24)"
    by (simp add: toordinal_2026_12_25 toordinal_2026_11_24)
  from o wait_handling_flag_set [of "(2026, 12, 25)" 63931107600000000 63931107540000000]
  have "wait_handling True (2026, 12, 25) 63931107540000000 = Inr SkipWait"
    by (simp add: us_per_second_def)
  moreover from o wait_handling_flag_set [of "(2026, 12, 25)" 63931107600000000 63931107539999999]
  have "wait_handling True (2026, 12, 25) 63931107539999999 = Inr (WaitUntil 63931107600000000)"
    by (simp add: us_per_second_def)
  moreover from e wait_handling_flag_set [of "(2026, 12, 25)" _ _ "(2026, 11, 24)"]
  have "reservations_open (2026, 12, 25) = Inr (datetime_jst (2026, 11, 24) 18)"
    by blast
  ultimately show ?thesis by blast
qed

section \<open>Properties of the main loop\<close>

text \<open>
  Claim C6. On a reservation page where the requested guest count is not selected and no
  element named \<^verbatim>\<open>guest\<close> exists, the pass raises
  \<^verbatim>\<open>NoSuchElementException\<close>: it neither warns nor sleeps nor retries.
\<close>

theorem guest_select_missing_raises:
  "tick example_request reservation_page = Inl NoSuchElementException"
  by (simp add: tick_def after_terms_def after_email_def table_reservation_def
      guests_and_calendar_def reservation_page_def example_request_def)




lemma shown_less:
  "((y, m, d) < (ry, rm, d)) = ((y, m) < (ry, (rm::nat)))"
  for y m d ry :: nat
  by auto















text \<open>
  Claim C10. When the pass reaches the month navigation, the displayed year and month
  differ from the requested ones and the displayed month has fewer days than the requested
  day of the month, building the date raises \<^verbatim>\<open>ValueError\<close> and the pass ends
  with that error: no button is clicked and nothing is retried.
\<close>

theorem calendar_invalid_day_raises:
  assumes "title pg \<noteq> []"
    and "\<not> str_in ''confirm you are human'' (page_source pg)"
    and "\<not> str_in ''/ Agree to terms'' (page_source pg) \<or> \<not> agree_checkbox pg \<and> \<not> agree_button pg"
    and "\<not> (str_in ''About Email Address Authentication'' (page_source pg) \<and> continue_button pg)"
    and "\<not> str_in ''congested'' (page_source pg)"
    and "str_in ''Table Reservation'' (page_source pg)"
    and "\<not> time_table pg"
    and "\<not> str_in ''complete your reservation'' (page_source pg)"
    and "guests_selected pg (guests req)"
    and "calendar_header pg = Some header_text"
    and "split_non_digits header_text = y_text # m_text # pieces"
    and "py_int y_text = Inr selected_year"
    and "py_int m_text = Inr selected_month"
    and "selected_year \<noteq> fst (date req) \<or> selected_month \<noteq> fst (snd (date req))"
    and "days_in_month selected_year selected_month < snd (snd (date req))"
  shows "tick req pg = Inl ValueError"
proof -
  have src: "page_source pg \<noteq> []"
    using assms(6) by (cases "page_source pg") simp_all
  have "mk_date selected_year selected_month (snd (snd (date req))) = Inl ValueError"
    using assms(15) by (simp add: mk_date_def)
  then have "calendar req pg header_text = Inl ValueError"
    using assms(11-14) by (simp add: calendar_def)
  then have "guests_and_calendar req pg = Inl ValueError"
    using assms(9,10) by (simp add: guests_and_calendar_def)
  then have "table_reservation req pg = Inl ValueError"
    using assms(7,8) by (simp add: table_reservation_def)
  then have "after_email req pg = Inl ValueError"
    using assms(5,6) by (simp add: after_email_def)
  then have a: "after_terms req pg = Inl ValueError"
    using assms(4) by (auto simp: after_terms_def)
  then have "terms req pg = Inl ValueError" if "\<not> agree_checkbox pg \<and> \<not> agree_button pg"
    using that by (simp add: terms_def)
  with a assms(3) have "(if str_in ''/ Agree to terms'' (page_source pg) then terms req pg
      else after_terms req pg) = Inl ValueError"
    by auto
  then show ?thesis
    using assms(1,2) src by (simp add: tick_def)
qed

text \<open>February 2027 displayed while the 31st of January 2027 is requested.\<close>

theorem calendar_invalid_day_raises_witness:
  "tick example_request
     (reservation_page\<lparr>guests_selected := (\<lambda>g. g = 2), calendar_header := Some ''2027/2''\<rparr>)
   = Inl ValueError"
proof -
  let ?pg = "reservation_page\<lparr>guests_selected := (\<lambda>g. g = 2), calendar_header := Some ''2027/2''\<rparr>"
  have s: "split_non_digits ''2027/2'' = ''2027'' # ''2'' # []" by (simp add: is_digit_def)
  have y: "py_int ''2027'' = Inr 2027" by (simp add: py_int_def digit_val_def)
  have m: "py_int ''2'' = Inr 2" by (simp add: py_int_def digit_val_def)
  show ?thesis
  proof (rule calendar_invalid_day_raises [of ?pg example_request "''2027/2''", OF _ _ _ _ _ _ _ _ _ _ s y m])
    show "title ?pg \<noteq> []" by (simp add: reservation_page_def)
    show "\<not> str_in ''confirm you are human'' (page_source ?pg)" by (simp add: reservation_page_def)
    show "\<not> str_in ''/ Agree to terms'' (page_source ?pg) \<or> \<not> agree_checkbox ?pg \<and> \<not> agree_button ?pg"
      by (simp add: reservation_page_def)
    show "\<not> (str_in ''About Email Address Authentication'' (page_source ?pg) \<and> continue_button ?pg)"
      by (simp add: reservation_page_def)
    show "\<not> str_in ''congested'' (page_source ?pg)" by (simp add: reservation_page_def)
    show "str_in ''Table Reservation'' (page_source ?pg)" by (simp add: reservation_page_def)
    show "\<not> time_table ?pg" by (simp add: reservation_page_def)
    show "\<not> str_in ''complete your reservation'' (page_source ?pg)" by (simp add: reservation_page_def)
    show "guests_selected ?pg (guests example_request)" by (simp add: example_request_def)
    show "calendar_header ?pg = Some ''2027/2''" by simp
    show "2027 \<noteq> fst (date example_request) \<or> 2 \<noteq> fst (snd (date example_request))"
      by (simp add: example_request_def)
    show "days_in_month 2027 2 < snd (snd (date example_request))"
      by (simp add: example_request_def days_in_month_def is_leap_def)
  qed
qed

end
